theory Spec2Isabelle
  imports Main
begin

section \<open>Python objects, references and exceptions\<close>

text \<open>
  Both notebooks create objects and hand out references to them, and the properties of
  interest are about object identity (is this the same object as that one?) and about
  aliasing (a mutation through one reference is seen through another). Objects therefore
  live in an explicit store: a list of objects, a reference being an index into it.
  Allocation appends to the store, so the reference of a new object is the length of the
  store before the allocation and differs from every reference handed out earlier.
\<close>

type_synonym ref = nat

text \<open>
  The exceptions that the modelled code can raise. \<open>AttributeError\<close> is what Python
  raises when \<open>self._settings\<close> is read on an object on which \<open>_initialize\<close> has not run;
  \<open>ValueError\<close> carries the message given to it by \<open>LoggerFactory.create_logger\<close>.
  \<open>DanglingRef\<close> is not a Python exception: a Python reference always designates a live
  object. It is the result of the model when an index outside the store is used as a
  reference, so that no definition reads the store out of range. \<open>Raised\<close> is any other
  exception, named by its class: one that code outside the notebooks raises, such as the
  \<open>__eq__\<close> method of an argument handed to \<open>create_logger\<close>.
\<close>

datatype py_error = AttributeError | ValueError string | DanglingRef | Raised string

section \<open>The settings manager (Singleton.ipynb)\<close>

subsection \<open>State\<close>

text \<open>
  An object of class \<open>SettingsManager\<close> has one instance attribute, \<open>_settings\<close>, a
  dictionary from setting names to setting values (both \<open>str\<close> by the annotations of
  \<open>set_setting\<close>). The attribute does not exist on the object returned by
  \<open>object.__new__\<close>; \<open>_initialize\<close> binds it. \<open>settings = None\<close> is the unbound attribute.
  The code only uses names as dictionary keys, that is, compares them for equality, and
  never inspects a value, so a Python \<open>str\<close> is a \<open>string\<close> here.
\<close>

record obj =
  settings :: "(string \<rightharpoonup> string) option"

text \<open>
  The state of the process as far as the class is concerned:
  \<^item> \<open>cls_instance\<close> is the class attribute \<open>SettingsManager._instance\<close>, \<open>None\<close> or a
    reference;
  \<^item> \<open>heap\<close> is the store of objects;
  \<^item> \<open>init_calls\<close> is a ghost counter: the number of times the body of \<open>_initialize\<close>
    has run. No operation reads it; it only makes "initialisation runs once" a statement
    about the state.
\<close>

record pstate =
  cls_instance :: "ref option"
  heap :: "obj list"
  init_calls :: nat

text \<open>The state right after the class statement: \<open>_instance: object = None\<close>, no object yet.\<close>

definition init_state :: pstate where
  "init_state = \<lparr>cls_instance = None, heap = [], init_calls = 0\<rparr>"

text \<open>Reading the attribute \<open>_settings\<close> of the object behind a reference.\<close>

definition settings_of :: "pstate \<Rightarrow> ref \<Rightarrow> py_error + (string \<rightharpoonup> string)" where
  "settings_of s self =
     (if self < length (heap s) then
        (case settings (heap s ! self) of
           None \<Rightarrow> Inl AttributeError
         | Some d \<Rightarrow> Inr d)
      else Inl DanglingRef)"

subsection \<open>Operations\<close>

text \<open>\<open>super().__new__(cls)\<close>, that is \<open>object.__new__\<close>: a new object with no attribute.\<close>

definition object_new :: "pstate \<Rightarrow> ref \<times> pstate" where
  "object_new s = (length (heap s), s\<lparr>heap := heap s @ [\<lparr>settings = None\<rparr>]\<rparr>)"

text \<open>
  \<open>_initialize(self)\<close>: binds \<open>self._settings\<close> to a new dictionary with the single entry
  \<open>'theme': 'dark'\<close> and returns \<open>None\<close> (the unit value here).
\<close>

definition initialize :: "ref \<Rightarrow> pstate \<Rightarrow> (py_error + unit) \<times> pstate" where
  "initialize self s =
     (if self < length (heap s) then
        (Inr (),
         s\<lparr>heap := (heap s)[self := (heap s ! self)\<lparr>settings := Some [''theme'' \<mapsto> ''dark'']\<rparr>],
           init_calls := Suc (init_calls s)\<rparr>)
      else (Inl DanglingRef, s))"

text \<open>
  \<open>__new__(cls)\<close>. When the class attribute is \<open>None\<close>, a new object is allocated, stored
  in the class attribute and initialised. In both cases the value returned is the class
  attribute as it is at the end, which is why the result is a \<open>ref option\<close>.
  \<open>cls._instance._initialize()\<close> reads the class attribute again: on \<open>None\<close> the attribute
  lookup \<open>_initialize\<close> would raise \<open>AttributeError\<close>.
\<close>

definition new :: "pstate \<Rightarrow> (py_error + ref option) \<times> pstate" where
  "new s =
     (if cls_instance s = None then
        (let (r, s1) = object_new s;
             s2 = s1\<lparr>cls_instance := Some r\<rparr>
         in case cls_instance s2 of
              None \<Rightarrow> (Inl AttributeError, s2)
            | Some self \<Rightarrow>
                (case initialize self s2 of
                   (Inl e, s3) \<Rightarrow> (Inl e, s3)
                 | (Inr _, s3) \<Rightarrow> (Inr (cls_instance s3), s3)))
      else (Inr (cls_instance s), s))"

text \<open>
  The call \<open>SettingsManager()\<close>, which the specification names \<open>acquire()\<close>: Python calls
  \<open>__new__\<close> and then \<open>__init__\<close> on the result; the class inherits \<open>object.__init__\<close>,
  which does nothing.
\<close>

definition acquire :: "pstate \<Rightarrow> (py_error + ref option) \<times> pstate" where
  "acquire s = new s"

text \<open>
  \<open>set_setting(self, setting_name, setting_value)\<close>: the item assignment
  \<open>self._settings[setting_name] = setting_value\<close> on the dictionary of the object,
  in place.
\<close>

definition set_setting :: "ref \<Rightarrow> string \<Rightarrow> string \<Rightarrow> pstate \<Rightarrow> (py_error + unit) \<times> pstate" where
  "set_setting self setting_name setting_value s =
     (case settings_of s self of
        Inl e \<Rightarrow> (Inl e, s)
      | Inr d \<Rightarrow>
          (Inr (),
           s\<lparr>heap := (heap s)[self :=
                (heap s ! self)\<lparr>settings := Some (d(setting_name \<mapsto> setting_value))\<rparr>]\<rparr>))"

text \<open>
  \<open>get_setting(self, setting_name)\<close>: \<open>self._settings.get(setting_name)\<close>. \<open>dict.get\<close>
  returns Python's \<open>None\<close> for a missing key: the result \<open>None\<close> of the map.
\<close>

definition get_setting :: "ref \<Rightarrow> string \<Rightarrow> pstate \<Rightarrow> (py_error + string option) \<times> pstate" where
  "get_setting self setting_name s =
     (case settings_of s self of
        Inl e \<Rightarrow> (Inl e, s)
      | Inr d \<Rightarrow> (Inr (d setting_name), s))"

subsection \<open>Clients\<close>

text \<open>
  A client of the class is a sequence of calls, like the cells of the notebook. A call
  that raises leaves the state as the exception left it and the next call runs, as the
  next cell of a notebook does.
\<close>

datatype call = Acquire | SetSetting ref string string | GetSetting ref string

fun step :: "call \<Rightarrow> pstate \<Rightarrow> pstate" where
  "step Acquire s = snd (acquire s)"
| "step (SetSetting self n v) s = snd (set_setting self n v s)"
| "step (GetSetting self n) s = snd (get_setting self n s)"

fun final :: "call list \<Rightarrow> pstate \<Rightarrow> pstate" where
  "final [] s = s"
| "final (c # cs) s = final cs (step c s)"

text \<open>What the \<open>SettingsManager()\<close> calls of a client return, in order.\<close>

fun acquire_results :: "call list \<Rightarrow> pstate \<Rightarrow> (py_error + ref option) list" where
  "acquire_results [] s = []"
| "acquire_results (Acquire # cs) s = fst (acquire s) # acquire_results cs (snd (acquire s))"
| "acquire_results (c # cs) s = acquire_results cs (step c s)"

text \<open>Whether a call assigns the setting \<open>n\<close> (through any reference).\<close>

fun sets_name :: "string \<Rightarrow> call \<Rightarrow> bool" where
  "sets_name n (SetSetting self n' v) = (n' = n)"
| "sets_name n c = False"

text \<open>
  The states that clients reach keep the class attribute, once set, on an initialised
  object of the store.
\<close>

definition valid :: "pstate \<Rightarrow> bool" where
  "valid s =
     (case cls_instance s of
        None \<Rightarrow> True
      | Some a \<Rightarrow> a < length (heap s) \<and> settings (heap s ! a) \<noteq> None)"

section \<open>The logger factory (Factory Method notebook)\<close>

text \<open>
  The three concrete subclasses of \<open>Logger\<close>; their objects have no attribute, so an
  object of the store is its class.
\<close>

datatype logger = ConsoleLogger | FileLogger | DatabaseLogger

text \<open>
  The parameter \<open>logger_type\<close> has no annotation and the code does not test its type, so
  the argument is any Python object. All the code does with it is compare it, with \<open>==\<close>,
  to a string literal and branch on the truth value of the result. A value of \<open>pyval\<close>
  is an argument as one call of \<open>create_logger\<close> sees it:
  \<^item> \<open>PyStr s\<close> is an object of class \<open>str\<close> itself (not of a subclass): \<open>==\<close> is
    equality of the characters;
  \<^item> \<open>PyInt i\<close> and \<open>PyNone\<close> are an \<open>int\<close> and \<open>None\<close>: neither \<open>int.__eq__\<close> nor
    \<open>str.__eq__\<close> handles the pair, and \<open>==\<close> falls back to identity, which is false;
  \<^item> \<open>PyObj eq\<close> is an object of any other class, a subclass of \<open>str\<close> included, with
    its own \<open>__eq__\<close>. \<open>eq c\<close> is what \<open>logger_type == c\<close> followed by the truth test of
    the \<open>if\<close> does: the truth value, or the exception that \<open>__eq__\<close> or \<open>__bool__\<close>
    raises, together with the loggers that this code created meanwhile (it is arbitrary
    code and may call the factory itself). Objects are never removed from the store and
    have no attribute, so creating objects is all such code can do to the store.
\<close>

datatype pyval =
    PyStr string
  | PyInt int
  | PyNone
  | PyObj "string \<Rightarrow> (py_error + bool) \<times> logger list"

text \<open>\<open>logger_type == c\<close> for a string literal \<open>c\<close>, and the objects created meanwhile.\<close>

fun py_eq :: "pyval \<Rightarrow> string \<Rightarrow> (py_error + bool) \<times> logger list" where
  "py_eq (PyStr s) c = (Inr (s = c), [])"
| "py_eq (PyInt i) c = (Inr False, [])"
| "py_eq PyNone c = (Inr False, [])"
| "py_eq (PyObj eq) c = eq c"

text \<open>
  \<open>LoggerFactory.create_logger(logger_type)\<close>: the \<open>if\<close>/\<open>elif\<close> chain. The comparisons run
  in the order of the source and a later one only when the earlier ones were false; an
  exception of a comparison leaves the function. \<open>ConsoleLogger()\<close> is an allocation: the
  classes define neither \<open>__new__\<close> nor \<open>__init__\<close>.
\<close>

definition create_logger :: "pyval \<Rightarrow> logger list \<Rightarrow> (py_error + ref) \<times> logger list" where
  "create_logger logger_type h =
     (let (c1, a1) = py_eq logger_type ''console''; h1 = h @ a1 in
      case c1 of
        Inl e \<Rightarrow> (Inl e, h1)
      | Inr True \<Rightarrow> (Inr (length h1), h1 @ [ConsoleLogger])
      | Inr False \<Rightarrow>
          (let (c2, a2) = py_eq logger_type ''file''; h2 = h1 @ a2 in
           case c2 of
             Inl e \<Rightarrow> (Inl e, h2)
           | Inr True \<Rightarrow> (Inr (length h2), h2 @ [FileLogger])
           | Inr False \<Rightarrow>
               (let (c3, a3) = py_eq logger_type ''database''; h3 = h2 @ a3 in
                case c3 of
                  Inl e \<Rightarrow> (Inl e, h3)
                | Inr True \<Rightarrow> (Inr (length h3), h3 @ [DatabaseLogger])
                | Inr False \<Rightarrow> (Inl (ValueError ''Invalid logger type argument''), h3))))"

text \<open>
  The references that a sequence of \<open>create_logger\<close> calls returns, one for each call
  that does not raise, in order.
\<close>

fun created :: "pyval list \<Rightarrow> logger list \<Rightarrow> ref list" where
  "created [] h = []"
| "created (t # ts) h =
     (case create_logger t h of
        (Inr r, h') \<Rightarrow> r # created ts h'
      | (Inl e, h') \<Rightarrow> created ts h')"

text \<open>
  Two arguments that are not strings. \<open>anything\<close> is an object of
  \<open>class Anything: def __eq__(self, other): return True\<close>; \<open>file_like\<close> is an object of a
  class whose \<open>__eq__(self, other)\<close> returns \<open>other == 'file'\<close>.
\<close>

definition anything :: pyval where
  "anything = PyObj (\<lambda>c. (Inr True, []))"

definition file_like :: pyval where
  "file_like = PyObj (\<lambda>c. (Inr (c = ''file''), []))"

section \<open>Basic facts about the operations\<close>

lemma acquire_initialised:
  "cls_instance s = Some a \<Longrightarrow> acquire s = (Inr (Some a), s)"
  by (simp add: acquire_def new_def)

lemma acquire_uninitialised:
  "cls_instance s = None \<Longrightarrow>
   acquire s =
     (Inr (Some (length (heap s))),
      s\<lparr>cls_instance := Some (length (heap s)),
        heap := heap s @ [\<lparr>settings = Some [''theme'' \<mapsto> ''dark'']\<rparr>],
        init_calls := Suc (init_calls s)\<rparr>)"
  by (simp add: acquire_def new_def object_new_def initialize_def)

lemmas ops_defs = acquire_def new_def object_new_def initialize_def set_setting_def
  get_setting_def settings_of_def init_state_def

subsection \<open>Once set, the class attribute stays\<close>

lemma step_cls_instance:
  "cls_instance s = Some a \<Longrightarrow> cls_instance (step c s) = Some a"
  by (cases c) (simp_all add: acquire_initialised set_setting_def get_setting_def split: sum.splits)

lemma step_init_calls:
  "cls_instance s = Some a \<Longrightarrow> init_calls (step c s) = init_calls s"
  by (cases c) (simp_all add: acquire_initialised set_setting_def get_setting_def split: sum.splits)

lemma final_cls_instance:
  "cls_instance s = Some a \<Longrightarrow> cls_instance (final cs s) = Some a"
  by (induction cs arbitrary: s) (simp_all add: step_cls_instance)

lemma final_init_calls:
  "cls_instance s = Some a \<Longrightarrow> init_calls (final cs s) = init_calls s"
proof (induction cs arbitrary: s)
  case Nil
  show ?case by simp
next
  case (Cons c cs)
  from Cons.prems have "cls_instance (step c s) = Some a"
    by (rule step_cls_instance)
  then have "init_calls (final cs (step c s)) = init_calls (step c s)"
    by (rule Cons.IH)
  with Cons.prems show ?case
    by (simp add: step_init_calls)
qed

lemma acquire_results_initialised:
  "cls_instance s = Some a \<Longrightarrow> acquire_results cs s = replicate (count_list cs Acquire) (Inr (Some a))"
proof (induction cs arbitrary: s)
  case Nil
  show ?case by simp
next
  case (Cons c cs)
  show ?case
  proof (cases c)
    case Acquire
    with Cons show ?thesis by (simp add: acquire_initialised)
  next
    case (SetSetting r n v)
    with Cons.IH [of "step c s"] Cons.prems show ?thesis
      by (simp add: step_cls_instance del: step.simps)
  next
    case (GetSetting r n)
    with Cons.IH [of "step c s"] Cons.prems show ?thesis
      by (simp add: step_cls_instance del: step.simps)
  qed
qed

lemma step_uninitialised:
  "cls_instance s = None \<Longrightarrow> c \<noteq> Acquire \<Longrightarrow> cls_instance (step c s) = None"
  by (cases c) (simp_all add: set_setting_def get_setting_def split: sum.splits)

subsection \<open>The invariant of reachable states\<close>

lemma valid_uninitialised: "cls_instance s = None \<Longrightarrow> valid s"
  by (simp add: valid_def)

lemma valid_step: "valid s \<Longrightarrow> valid (step c s)"
proof (cases c)
  case Acquire
  assume "valid s"
  then show ?thesis
    unfolding Acquire
    by (cases "cls_instance s") (simp_all add: acquire_initialised acquire_uninitialised valid_def)
next
  case (SetSetting r n v)
  assume "valid s"
  then show ?thesis
    unfolding SetSetting
    by (auto simp: valid_def set_setting_def settings_of_def nth_list_update split: option.splits sum.splits if_splits)
next
  case (GetSetting r n)
  assume "valid s"
  then show ?thesis
    unfolding GetSetting
    by (simp add: get_setting_def split: sum.splits)
qed

lemma valid_final: "valid s \<Longrightarrow> valid (final cs s)"
  by (induction cs arbitrary: s) (simp_all add: valid_step del: step.simps)

lemma valid_settings_of:
  "valid s \<Longrightarrow> cls_instance s = Some a \<Longrightarrow> \<exists>d. settings_of s a = Inr d"
  by (auto simp: valid_def settings_of_def)

lemma final_append: "final (cs @ cs') s = final cs' (final cs s)"
  by (induction cs arbitrary: s) simp_all

lemma acquire_results_append:
  "acquire_results (cs @ cs') s = acquire_results cs s @ acquire_results cs' (final cs s)"
  by (induction cs s rule: acquire_results.induct) simp_all

text \<open>A reference returned by a call of a client is the class attribute at the end.\<close>

lemma acquired_is_instance:
  "Inr (Some r) \<in> set (acquire_results cs s) \<Longrightarrow> cls_instance (final cs s) = Some r"
proof (induction cs arbitrary: s)
  case Nil
  then show ?case by simp
next
  case (Cons c cs)
  show ?case
  proof (cases "cls_instance s")
    case (Some a)
    with Cons.prems have "r = a"
      by (auto simp: acquire_results_initialised)
    with Some show ?thesis
      by (simp add: final_cls_instance del: final.simps)
  next
    case None
    show ?thesis
    proof (cases c)
      case Acquire
      let ?a = "length (heap s)"
      from None have a: "cls_instance (snd (acquire s)) = Some ?a" "fst (acquire s) = Inr (Some ?a)"
        by (simp_all add: acquire_uninitialised)
      with Cons.prems Acquire have "r = ?a"
        by (auto simp: acquire_results_initialised)
      with a Acquire show ?thesis
        by (simp add: final_cls_instance)
    next
      case (SetSetting r' n v)
      with Cons.prems Cons.IH [of "step c s"] show ?thesis by simp
    next
      case (GetSetting r' n)
      with Cons.prems Cons.IH [of "step c s"] show ?thesis by simp
    qed
  qed
qed

lemma acquired_settings_of:
  assumes "cls_instance s0 = None" and "Inr (Some r) \<in> set (acquire_results cs s0)"
  shows "\<exists>d. settings_of (final cs s0) r = Inr d"
proof -
  have "valid (final cs s0)"
    using assms(1) by (simp add: valid_uninitialised valid_final)
  moreover have "cls_instance (final cs s0) = Some r"
    using assms(2) by (rule acquired_is_instance)
  ultimately show ?thesis by (rule valid_settings_of)
qed

subsection \<open>What later calls keep of a setting\<close>

lemma get_setting_step:
  assumes "fst (get_setting a n s) = Inr x" and "\<not> sets_name n c"
  shows "fst (get_setting a n (step c s)) = Inr x"
proof (cases c)
  case Acquire
  show ?thesis
  proof (cases "cls_instance s")
    case None
    with assms(1) show ?thesis
      unfolding Acquire
      by (auto simp: acquire_uninitialised get_setting_def settings_of_def nth_append
               split: sum.splits option.splits if_splits)
  next
    case (Some b)
    with assms(1) show ?thesis
      unfolding Acquire by (simp add: acquire_initialised)
  qed
next
  case (SetSetting r' n' v')
  with assms(2) have "n' \<noteq> n" by simp
  with assms(1) show ?thesis
    unfolding SetSetting
    by (auto simp: set_setting_def get_setting_def settings_of_def nth_list_update
             split: sum.splits option.splits if_splits)
next
  case (GetSetting r' n')
  with assms(1) show ?thesis
    by (simp add: get_setting_def split: sum.splits)
qed

lemma get_setting_final:
  assumes "fst (get_setting a n s) = Inr x" and "\<forall>c \<in> set cs. \<not> sets_name n c"
  shows "fst (get_setting a n (final cs s)) = Inr x"
  using assms
proof (induction cs arbitrary: s)
  case Nil
  then show ?case by simp
next
  case (Cons c cs)
  from Cons.prems have "fst (get_setting a n (step c s)) = Inr x"
    by (simp add: get_setting_step del: step.simps)
  with Cons.prems Cons.IH [of "step c s"] show ?case by simp
qed

lemma set_then_get:
  "settings_of s self = Inr d \<Longrightarrow>
   get_setting self n (snd (set_setting self n v s)) =
     (Inr (Some v), snd (set_setting self n v s))"
  by (auto simp: set_setting_def get_setting_def settings_of_def split: option.splits if_splits)

section \<open>Properties of the settings manager\<close>

text \<open>
  C1 (single instance). In every sequence of calls, from every state, all the
  \<open>SettingsManager()\<close> calls return, none raises, and all return the same reference: the
  list of their results is one result \<open>Inr (Some r)\<close> repeated, so each is the reference
  that the first call returned. The sequence may contain \<open>set_setting\<close> and
  \<open>get_setting\<close> calls between the constructions.
\<close>

theorem acquire_single_instance:
  "\<exists>r. acquire_results cs s = replicate (count_list cs Acquire) (Inr (Some r))"
proof (cases "cls_instance s")
  case (Some a)
  then show ?thesis by (auto simp: acquire_results_initialised)
next
  case None
  then show ?thesis
  proof (induction cs arbitrary: s)
    case Nil
    show ?case by simp
  next
    case (Cons c cs)
    show ?case
    proof (cases c)
      case Acquire
      let ?a = "length (heap s)"
      from Cons.prems have "cls_instance (snd (acquire s)) = Some ?a" and "fst (acquire s) = Inr (Some ?a)"
        by (simp_all add: acquire_uninitialised)
      with Acquire show ?thesis
        by (auto simp: acquire_results_initialised)
    next
      case (SetSetting r n v)
      with Cons.prems have "cls_instance (step c s) = None"
        by (simp add: step_uninitialised del: step.simps)
      from Cons.IH [OF this] SetSetting show ?thesis by simp
    next
      case (GetSetting r n)
      with Cons.prems have "cls_instance (step c s) = None"
        by (simp add: step_uninitialised del: step.simps)
      from Cons.IH [OF this] GetSetting show ?thesis by simp
    qed
  qed
qed

text \<open>
  C2 (one-time initialisation). From a state where the class attribute is \<open>None\<close>,
  the first \<open>SettingsManager()\<close> call returns a reference \<open>r\<close> on which
  \<open>get_setting('theme')\<close> is \<open>'dark'\<close>, and whatever calls follow (any number of
  constructions among them), the body of \<open>_initialize\<close> has run exactly once more than
  before the first call.
\<close>

theorem acquire_initialises_once:
  assumes "cls_instance s = None"
  shows "\<exists>r s1. acquire s = (Inr (Some r), s1)
           \<and> get_setting r ''theme'' s1 = (Inr (Some ''dark''), s1)
           \<and> (\<forall>cs. init_calls (final cs s1) = Suc (init_calls s))"
proof -
  let ?r = "length (heap s)"
  let ?s1 = "snd (acquire s)"
  from assms have acq: "acquire s = (Inr (Some ?r), ?s1)"
    by (simp add: acquire_uninitialised)
  from assms have inst: "cls_instance ?s1 = Some ?r" and cnt: "init_calls ?s1 = Suc (init_calls s)"
    by (simp_all add: acquire_uninitialised)
  from assms have "get_setting ?r ''theme'' ?s1 = (Inr (Some ''dark''), ?s1)"
    by (simp add: acquire_uninitialised get_setting_def settings_of_def)
  moreover have "\<forall>cs. init_calls (final cs ?s1) = Suc (init_calls s)"
    using final_init_calls [OF inst] cnt by simp
  ultimately show ?thesis using acq by blast
qed

theorem acquire_initialises_once_witness:
  "cls_instance init_state = None
   \<and> (\<exists>r s1. acquire init_state = (Inr (Some r), s1)
         \<and> get_setting r ''theme'' s1 = (Inr (Some ''dark''), s1)
         \<and> init_calls (final [Acquire, GetSetting r ''theme'', Acquire] s1) = 1)"
proof -
  have h: "cls_instance init_state = None" by (simp add: init_state_def)
  from acquire_initialises_once [OF h] obtain r s1 where
    a: "acquire init_state = (Inr (Some r), s1)" and
    g: "get_setting r ''theme'' s1 = (Inr (Some ''dark''), s1)" and
    c: "\<forall>cs. init_calls (final cs s1) = Suc (init_calls init_state)"
    by blast
  from c have "init_calls (final [Acquire, GetSetting r ''theme'', Acquire] s1) = 1"
    by (simp add: init_state_def del: final.simps)
  with h a g show ?thesis by blast
qed

text \<open>
  C3 (mutation visibility). Let \<open>r1\<close> be a reference that some construction call
  of the client \<open>cs\<close> returned, and \<open>r2\<close> one returned by a construction call anywhere
  in \<open>cs\<close>, followed by \<open>r1.set_setting('theme', 'light')\<close>, followed by calls \<open>cs'\<close>
  that do not assign \<open>theme\<close>. Then the \<open>set_setting\<close> call succeeds and
  \<open>r2.get_setting('theme')\<close> at the end returns \<open>'light'\<close>.
\<close>

theorem set_visible_through_alias:
  assumes "cls_instance s0 = None"
    and "Inr (Some r1) \<in> set (acquire_results cs s0)"
    and "Inr (Some r2) \<in> set (acquire_results (cs @ SetSetting r1 ''theme'' ''light'' # cs') s0)"
    and "\<forall>c \<in> set cs'. \<not> sets_name ''theme'' c"
  shows "fst (set_setting r1 ''theme'' ''light'' (final cs s0)) = Inr ()
       \<and> fst (get_setting r2 ''theme'' (final (cs @ SetSetting r1 ''theme'' ''light'' # cs') s0))
           = Inr (Some ''light'')"
proof -
  let ?set = "SetSetting r1 ''theme'' ''light''"
  let ?s = "final cs s0"
  let ?s' = "snd (set_setting r1 ''theme'' ''light'' ?s)"
  from assms(1,2) obtain d where d: "settings_of ?s r1 = Inr d"
    using acquired_settings_of by blast
  then have ok: "fst (set_setting r1 ''theme'' ''light'' ?s) = Inr ()"
    by (simp add: set_setting_def)
  have "cls_instance ?s = Some r1"
    using assms(2) by (rule acquired_is_instance)
  then have "cls_instance (final (cs @ ?set # cs') s0) = Some r1"
    by (simp add: final_append final_cls_instance set_setting_def d)
  moreover have "cls_instance (final (cs @ ?set # cs') s0) = Some r2"
    using assms(3) by (rule acquired_is_instance)
  ultimately have same: "r2 = r1" by simp
  have "fst (get_setting r1 ''theme'' ?s') = Inr (Some ''light'')"
    using set_then_get [OF d] by simp
  then have "fst (get_setting r1 ''theme'' (final cs' ?s')) = Inr (Some ''light'')"
    using assms(4) by (rule get_setting_final)
  then have "fst (get_setting r2 ''theme'' (final (cs @ ?set # cs') s0)) = Inr (Some ''light'')"
    by (simp add: same final_append)
  with ok show ?thesis by simp
qed

theorem set_visible_through_alias_witness:
  "cls_instance init_state = None
   \<and> Inr (Some 0) \<in> set (acquire_results [Acquire] init_state)
   \<and> Inr (Some 0) \<in> set (acquire_results ([Acquire] @ SetSetting 0 ''theme'' ''light'' # [Acquire]) init_state)
   \<and> \<not> sets_name ''theme'' Acquire
   \<and> fst (set_setting 0 ''theme'' ''light'' (final [Acquire] init_state)) = Inr ()
   \<and> fst (get_setting 0 ''theme''
        (final ([Acquire] @ SetSetting 0 ''theme'' ''light'' # [Acquire]) init_state))
       = Inr (Some ''light'')"
proof -
  have h1: "cls_instance init_state = None"
    by (simp add: init_state_def)
  have h2: "Inr (Some 0) \<in> set (acquire_results [Acquire] init_state)"
    by (simp add: ops_defs)
  have h3: "Inr (Some 0) \<in> set (acquire_results ([Acquire] @ SetSetting 0 ''theme'' ''light'' # [Acquire]) init_state)"
    by (simp add: ops_defs)
  have h4: "\<forall>c \<in> set [Acquire]. \<not> sets_name ''theme'' c"
    by simp
  have h5: "\<not> sets_name ''theme'' Acquire"
    by simp
  from set_visible_through_alias [OF h1 h2 h3 h4] h1 h2 h3 h5 show ?thesis
    by blast
qed

text \<open>
  C4 (absent key). On a reference \<open>r\<close> returned by a construction call, the object has
  a settings dictionary \<open>d\<close>, and \<open>get_setting(n)\<close> does not raise: it returns Python's
  \<open>None\<close> (here \<open>Inr None\<close>) when \<open>n\<close> is not a key of \<open>d\<close>, and the stored value when it
  is; the state is the same after the call.
\<close>

theorem get_setting_absent_key:
  assumes "cls_instance s0 = None"
    and "Inr (Some r) \<in> set (acquire_results cs s0)"
  shows "\<exists>d. settings_of (final cs s0) r = Inr d
           \<and> (n \<notin> dom d \<longrightarrow> get_setting r n (final cs s0) = (Inr None, final cs s0))
           \<and> (\<forall>v. d n = Some v \<longrightarrow> get_setting r n (final cs s0) = (Inr (Some v), final cs s0))"
proof -
  from assms obtain d where d: "settings_of (final cs s0) r = Inr d"
    using acquired_settings_of by blast
  then have "get_setting r n (final cs s0) = (Inr (d n), final cs s0)"
    by (simp add: get_setting_def)
  with d show ?thesis by (auto simp: dom_def)
qed

theorem get_setting_absent_key_witness:
  "cls_instance init_state = None
   \<and> Inr (Some 0) \<in> set (acquire_results [Acquire] init_state)
   \<and> get_setting 0 ''nonexistent'' (final [Acquire] init_state)
       = (Inr None, final [Acquire] init_state)"
proof -
  have h1: "cls_instance init_state = None"
    by (simp add: init_state_def)
  have h2: "Inr (Some 0) \<in> set (acquire_results [Acquire] init_state)"
    by (simp add: ops_defs)
  have "settings_of (final [Acquire] init_state) 0 = Inr [''theme'' \<mapsto> ''dark'']"
    by (simp add: ops_defs)
  with get_setting_absent_key [OF h1 h2, of "''nonexistent''"]
  have "get_setting 0 ''nonexistent'' (final [Acquire] init_state)
       = (Inr None, final [Acquire] init_state)"
    by (auto simp del: final.simps)
  with h1 h2 show ?thesis by blast
qed

text \<open>
  C5 (construction protocol). Once the class attribute holds a reference \<open>a\<close>, a
  construction call returns \<open>a\<close> and leaves the whole state as it is; after any sequence
  of calls the class attribute still holds \<open>a\<close> (it never goes back to \<open>None\<close>), the
  body of \<open>_initialize\<close> has not run again, and a construction call is still the same
  no-op.
\<close>

theorem initialised_is_terminal:
  assumes "cls_instance s = Some a"
  shows "acquire s = (Inr (Some a), s)
       \<and> cls_instance (final cs s) = Some a
       \<and> init_calls (final cs s) = init_calls s
       \<and> acquire (final cs s) = (Inr (Some a), final cs s)"
proof -
  have "cls_instance (final cs s) = Some a"
    using assms by (rule final_cls_instance)
  then show ?thesis
    using assms by (simp add: acquire_initialised final_init_calls)
qed

theorem initialised_is_terminal_witness:
  "cls_instance (snd (acquire init_state)) = Some 0
   \<and> acquire (snd (acquire init_state)) = (Inr (Some 0), snd (acquire init_state))
   \<and> cls_instance (final [SetSetting 0 ''theme'' ''light'', Acquire] (snd (acquire init_state))) = Some 0
   \<and> init_calls (final [SetSetting 0 ''theme'' ''light'', Acquire] (snd (acquire init_state))) = 1"
proof -
  have h: "cls_instance (snd (acquire init_state)) = Some 0"
    by (simp add: ops_defs)
  have c: "init_calls (snd (acquire init_state)) = 1"
    by (simp add: ops_defs)
  from initialised_is_terminal [OF h, of "[SetSetting 0 ''theme'' ''light'', Acquire]"] h c
  show ?thesis by (simp del: final.simps)
qed

text \<open>
  C6 (\<open>set_setting\<close> is total). On a reference \<open>r\<close> returned by a construction call,
  \<open>set_setting(n, v)\<close> succeeds for every name \<open>n\<close> and value \<open>v\<close>, with no condition on
  either, and the dictionary of the object afterwards is the one before with \<open>n\<close> bound
  to \<open>v\<close>: a new entry when \<open>n\<close> was absent, the entry overwritten when it was present.
\<close>

theorem set_setting_always_succeeds:
  assumes "cls_instance s0 = None"
    and "Inr (Some r) \<in> set (acquire_results cs s0)"
  shows "\<exists>d s'. settings_of (final cs s0) r = Inr d
           \<and> set_setting r n v (final cs s0) = (Inr (), s')
           \<and> settings_of s' r = Inr (d(n \<mapsto> v))"
proof -
  from assms obtain d where d: "settings_of (final cs s0) r = Inr d"
    using acquired_settings_of by blast
  then have "fst (set_setting r n v (final cs s0)) = Inr ()"
    and "settings_of (snd (set_setting r n v (final cs s0))) r = Inr (d(n \<mapsto> v))"
    by (auto simp: set_setting_def settings_of_def split: if_splits option.splits)
  with d show ?thesis
    by (metis prod.collapse)
qed

theorem set_setting_always_succeeds_witness:
  "cls_instance init_state = None
   \<and> Inr (Some 0) \<in> set (acquire_results [Acquire] init_state)
   \<and> (\<exists>s'. set_setting 0 [] [] (final [Acquire] init_state) = (Inr (), s')
          \<and> settings_of s' 0 = Inr ([''theme'' \<mapsto> ''dark''](([]::string) \<mapsto> [])))"
proof -
  have h1: "cls_instance init_state = None"
    by (simp add: init_state_def)
  have h2: "Inr (Some 0) \<in> set (acquire_results [Acquire] init_state)"
    by (simp add: ops_defs)
  have "settings_of (final [Acquire] init_state) 0 = Inr [''theme'' \<mapsto> ''dark'']"
    by (simp add: ops_defs)
  with set_setting_always_succeeds [OF h1 h2, of "[]" "[]"] h1 h2 show ?thesis
    by (auto simp del: final.simps)
qed

text \<open>
  C7 (end-to-end run). From a state where the class attribute is \<open>None\<close>: the
  first construction call returns a reference \<open>r\<close> with \<open>theme\<close> equal to \<open>'dark'\<close>; after
  \<open>set_setting('theme', 'light')\<close> a further construction call returns \<open>r\<close> again, changes
  nothing, and \<open>theme\<close> read through it is \<open>'light'\<close>; after \<open>set_setting('font', 'serif')\<close>,
  \<open>font\<close> is \<open>'serif'\<close> and \<open>theme\<close> is still \<open>'light'\<close>. No call raises.
\<close>

theorem theme_font_scenario:
  assumes "cls_instance s = None"
  shows "\<exists>r s1 s2 s3.
           acquire s = (Inr (Some r), s1)
         \<and> get_setting r ''theme'' s1 = (Inr (Some ''dark''), s1)
         \<and> set_setting r ''theme'' ''light'' s1 = (Inr (), s2)
         \<and> acquire s2 = (Inr (Some r), s2)
         \<and> get_setting r ''theme'' s2 = (Inr (Some ''light''), s2)
         \<and> set_setting r ''font'' ''serif'' s2 = (Inr (), s3)
         \<and> get_setting r ''font'' s3 = (Inr (Some ''serif''), s3)
         \<and> get_setting r ''theme'' s3 = (Inr (Some ''light''), s3)"
proof -
  let ?r = "length (heap s)"
  let ?s1 = "snd (acquire s)"
  let ?s2 = "snd (set_setting ?r ''theme'' ''light'' ?s1)"
  let ?s3 = "snd (set_setting ?r ''font'' ''serif'' ?s2)"
  from assms have a1: "acquire s = (Inr (Some ?r), ?s1)"
    by (simp add: acquire_uninitialised)
  from assms have d1: "settings_of ?s1 ?r = Inr [''theme'' \<mapsto> ''dark'']"
    by (simp add: acquire_uninitialised settings_of_def)
  then have g1: "get_setting ?r ''theme'' ?s1 = (Inr (Some ''dark''), ?s1)"
    by (simp add: get_setting_def)
  from d1 have t2: "set_setting ?r ''theme'' ''light'' ?s1 = (Inr (), ?s2)"
    by (simp add: set_setting_def)
  from assms have "cls_instance ?s1 = Some ?r"
    by (simp add: acquire_uninitialised)
  then have "cls_instance ?s2 = Some ?r"
    using step_cls_instance [of ?s1 ?r "SetSetting ?r ''theme'' ''light''"] by simp
  then have a2: "acquire ?s2 = (Inr (Some ?r), ?s2)"
    by (rule acquire_initialised)
  from d1 have d2: "settings_of ?s2 ?r = Inr [''theme'' \<mapsto> ''light'']"
    by (auto simp: set_setting_def settings_of_def split: if_splits option.splits)
  then have g2: "get_setting ?r ''theme'' ?s2 = (Inr (Some ''light''), ?s2)"
    by (simp add: get_setting_def)
  from d2 have t3: "set_setting ?r ''font'' ''serif'' ?s2 = (Inr (), ?s3)"
    by (simp add: set_setting_def)
  from d2 have d3: "settings_of ?s3 ?r = Inr [''theme'' \<mapsto> ''light'', ''font'' \<mapsto> ''serif'']"
    by (auto simp: set_setting_def settings_of_def split: if_splits option.splits)
  then have g3: "get_setting ?r ''font'' ?s3 = (Inr (Some ''serif''), ?s3)"
    and g4: "get_setting ?r ''theme'' ?s3 = (Inr (Some ''light''), ?s3)"
    by (simp_all add: get_setting_def)
  from a1 g1 t2 a2 g2 t3 g3 g4 show ?thesis by blast
qed

theorem theme_font_scenario_witness:
  "cls_instance init_state = None
   \<and> (\<exists>s1 s2 s3.
           acquire init_state = (Inr (Some 0), s1)
         \<and> get_setting 0 ''theme'' s1 = (Inr (Some ''dark''), s1)
         \<and> set_setting 0 ''theme'' ''light'' s1 = (Inr (), s2)
         \<and> acquire s2 = (Inr (Some 0), s2)
         \<and> get_setting 0 ''theme'' s2 = (Inr (Some ''light''), s2)
         \<and> set_setting 0 ''font'' ''serif'' s2 = (Inr (), s3)
         \<and> get_setting 0 ''font'' s3 = (Inr (Some ''serif''), s3)
         \<and> get_setting 0 ''theme'' s3 = (Inr (Some ''light''), s3))"
proof -
  have h: "cls_instance init_state = None"
    by (simp add: init_state_def)
  have "fst (acquire init_state) = Inr (Some 0)"
    by (simp add: ops_defs)
  with theme_font_scenario [OF h] h show ?thesis
    by fastforce
qed

text \<open>
  C8 (frame of \<open>set_setting\<close>). Whatever \<open>set_setting(n, v)\<close> on the reference \<open>r\<close>
  returns, the class attribute is the same after the call (the instance is not
  replaced), the store holds the same number of objects (none is created: the
  dictionary is changed in place), \<open>_initialize\<close> has not run, the settings of every other
  object are the same, and on \<open>r\<close> every name other than \<open>n\<close> reads as before.
\<close>

theorem set_setting_changes_one_entry:
  assumes "set_setting r n v s = (x, s')"
  shows "cls_instance s' = cls_instance s
       \<and> init_calls s' = init_calls s
       \<and> length (heap s') = length (heap s)
       \<and> (\<forall>r'. r' \<noteq> r \<longrightarrow> settings_of s' r' = settings_of s r')
       \<and> (\<forall>k. k \<noteq> n \<longrightarrow> fst (get_setting r k s') = fst (get_setting r k s))"
proof (cases "settings_of s r")
  case (Inl e)
  with assms have "s' = s"
    by (simp add: set_setting_def)
  then show ?thesis by simp
next
  case (Inr d)
  with assms have s': "s' = s\<lparr>heap := (heap s)[r := (heap s ! r)\<lparr>settings := Some (d(n \<mapsto> v))\<rparr>]\<rparr>"
    by (auto simp: set_setting_def)
  from Inr have r: "r < length (heap s)"
    by (simp add: settings_of_def split: if_splits)
  have "\<forall>r'. r' \<noteq> r \<longrightarrow> settings_of s' r' = settings_of s r'"
    by (simp add: s' settings_of_def)
  moreover have "\<forall>k. k \<noteq> n \<longrightarrow> fst (get_setting r k s') = fst (get_setting r k s)"
    using Inr r by (simp add: s' get_setting_def settings_of_def)
  ultimately show ?thesis
    by (simp add: s')
qed

theorem set_setting_changes_one_entry_witness:
  "set_setting 0 ''theme'' ''light'' (final [Acquire, SetSetting 0 ''font'' ''serif''] init_state)
     = (Inr (), snd (set_setting 0 ''theme'' ''light'' (final [Acquire, SetSetting 0 ''font'' ''serif''] init_state)))
   \<and> cls_instance (snd (set_setting 0 ''theme'' ''light'' (final [Acquire, SetSetting 0 ''font'' ''serif''] init_state))) = Some 0
   \<and> fst (get_setting 0 ''font'' (snd (set_setting 0 ''theme'' ''light'' (final [Acquire, SetSetting 0 ''font'' ''serif''] init_state))))
       = Inr (Some ''serif'')"
proof -
  let ?s = "final [Acquire, SetSetting 0 ''font'' ''serif''] init_state"
  let ?s' = "snd (set_setting 0 ''theme'' ''light'' ?s)"
  have h: "set_setting 0 ''theme'' ''light'' ?s = (Inr (), ?s')"
    by (simp add: ops_defs)
  have i: "cls_instance ?s = Some 0"
    by (simp add: ops_defs)
  have g: "fst (get_setting 0 ''font'' ?s) = Inr (Some ''serif'')"
    by (simp add: ops_defs)
  have ne: "''font'' \<noteq> ''theme''" by simp
  from set_setting_changes_one_entry [OF h] have
    "cls_instance ?s' = cls_instance ?s"
    "\<forall>k. k \<noteq> ''theme'' \<longrightarrow> fst (get_setting 0 k ?s') = fst (get_setting 0 k ?s)"
    by blast+
  with i g ne have "cls_instance ?s' = Some 0" "fst (get_setting 0 ''font'' ?s') = Inr (Some ''serif'')"
    by (simp_all del: final.simps)
  with h show ?thesis by blast
qed

text \<open>
  C9 (\<open>get_setting\<close> is read-only). The state after \<open>get_setting\<close> is the state before
  it, for every reference and every name, whether the name is present or absent and
  whether the call returns or raises: the store with every settings dictionary, the class
  attribute, and the counter.
\<close>

theorem get_setting_keeps_state: "snd (get_setting self n s) = s"
  by (simp add: get_setting_def split: sum.splits)

section \<open>Properties of the logger factory\<close>

text \<open>
  A call only adds objects to the store, and a reference it returns designates one of the
  objects it added. So the references returned by a sequence of calls lie outside the
  store the sequence started from, and no two of them are equal.
\<close>

lemma create_logger_grows:
  "create_logger t h = (x, h') \<Longrightarrow> \<exists>a. h' = h @ a"
  by (auto simp: create_logger_def Let_def split: prod.splits sum.splits bool.splits)

lemma create_logger_ref:
  "create_logger t h = (Inr r, h') \<Longrightarrow> length h \<le> r \<and> r < length h'"
  by (auto simp: create_logger_def Let_def split: prod.splits sum.splits bool.splits)

lemma created_bounds:
  "\<forall>r \<in> set (created ts h). length h \<le> r"
proof (induction ts arbitrary: h)
  case Nil
  show ?case by simp
next
  case (Cons t ts)
  obtain x h' where c: "create_logger t h = (x, h')"
    by (cases "create_logger t h")
  then obtain a where h': "h' = h @ a"
    using create_logger_grows by blast
  have later: "\<forall>r \<in> set (created ts h'). length h \<le> r"
    using Cons.IH [of h'] h' by auto
  show ?case
  proof (cases x)
    case (Inl e)
    with c later show ?thesis by simp
  next
    case (Inr r)
    with c have "length h \<le> r"
      using create_logger_ref by blast
    with c Inr later show ?thesis by simp
  qed
qed

lemma created_distinct: "distinct (created ts h)"
proof (induction ts arbitrary: h)
  case Nil
  show ?case by simp
next
  case (Cons t ts)
  obtain x h' where c: "create_logger t h = (x, h')"
    by (cases "create_logger t h")
  show ?case
  proof (cases x)
    case (Inl e)
    with c Cons.IH [of h'] show ?thesis by simp
  next
    case (Inr r)
    with c have "r < length h'"
      using create_logger_ref by blast
    then have "r \<notin> set (created ts h')"
      using created_bounds [of ts h'] by auto
    with c Inr Cons.IH [of h'] show ?thesis by simp
  qed
qed

text \<open>
  C10 (dispatch of \<open>LoggerFactory.create_logger\<close>), as the code has it: the dispatch is on
  the comparisons, not on the argument being one of three strings.
  \<^item> For an argument of class \<open>str\<close>: \<open>'console'\<close>, \<open>'file'\<close> and \<open>'database'\<close> each allocate a
    new object of class \<open>ConsoleLogger\<close>, \<open>FileLogger\<close> and \<open>DatabaseLogger\<close> and return its
    reference, leaving the older objects as they are; every other string raises
    \<open>ValueError\<close> and allocates nothing. An \<open>int\<close> and \<open>None\<close> raise \<open>ValueError\<close> too.
  \<^item> For every argument: a new \<open>ConsoleLogger\<close> when \<open>logger_type == 'console'\<close> is true;
    otherwise a new \<open>FileLogger\<close> when \<open>logger_type == 'file'\<close> is true; otherwise a new
    \<open>DatabaseLogger\<close> when \<open>logger_type == 'database'\<close> is true; \<open>ValueError\<close> when the three
    comparisons are false; and when a comparison raises, that exception.
  \<^item> No instance is shared or cached: over any sequence of calls the returned references
    are pairwise distinct, and none designates an object that existed before the
    sequence.
\<close>

theorem create_logger_by_comparison:
  "create_logger (PyStr s) h =
     (if s = ''console'' then (Inr (length h), h @ [ConsoleLogger])
      else if s = ''file'' then (Inr (length h), h @ [FileLogger])
      else if s = ''database'' then (Inr (length h), h @ [DatabaseLogger])
      else (Inl (ValueError ''Invalid logger type argument''), h))
   \<and> create_logger (PyInt i) h = (Inl (ValueError ''Invalid logger type argument''), h)
   \<and> create_logger PyNone h = (Inl (ValueError ''Invalid logger type argument''), h)
   \<and> (py_eq t ''console'' = (Inr True, a1) \<longrightarrow>
        create_logger t h = (Inr (length (h @ a1)), h @ a1 @ [ConsoleLogger]))
   \<and> (py_eq t ''console'' = (Inr False, a1) \<and> py_eq t ''file'' = (Inr True, a2) \<longrightarrow>
        create_logger t h = (Inr (length (h @ a1 @ a2)), h @ a1 @ a2 @ [FileLogger]))
   \<and> (py_eq t ''console'' = (Inr False, a1) \<and> py_eq t ''file'' = (Inr False, a2)
        \<and> py_eq t ''database'' = (Inr True, a3) \<longrightarrow>
        create_logger t h = (Inr (length (h @ a1 @ a2 @ a3)), h @ a1 @ a2 @ a3 @ [DatabaseLogger]))
   \<and> (py_eq t ''console'' = (Inr False, a1) \<and> py_eq t ''file'' = (Inr False, a2)
        \<and> py_eq t ''database'' = (Inr False, a3) \<longrightarrow>
        create_logger t h = (Inl (ValueError ''Invalid logger type argument''), h @ a1 @ a2 @ a3))
   \<and> (py_eq t ''console'' = (Inl e, a1) \<longrightarrow> create_logger t h = (Inl e, h @ a1))
   \<and> (py_eq t ''console'' = (Inr False, a1) \<and> py_eq t ''file'' = (Inl e, a2) \<longrightarrow>
        create_logger t h = (Inl e, h @ a1 @ a2))
   \<and> (py_eq t ''console'' = (Inr False, a1) \<and> py_eq t ''file'' = (Inr False, a2)
        \<and> py_eq t ''database'' = (Inl e, a3) \<longrightarrow>
        create_logger t h = (Inl e, h @ a1 @ a2 @ a3))
   \<and> distinct (created ts h)
   \<and> (\<forall>r \<in> set (created ts h). r \<notin> {..<length h})"
proof -
  have "\<forall>r \<in> set (created ts h). r \<notin> {..<length h}"
    using created_bounds [of ts h] by auto
  then show ?thesis
    by (simp add: create_logger_def created_distinct)
qed

theorem create_logger_by_comparison_witness:
  "py_eq file_like ''console'' = (Inr False, [])
   \<and> py_eq file_like ''file'' = (Inr True, [])
   \<and> create_logger file_like [ConsoleLogger] = (Inr 1, [ConsoleLogger, FileLogger])
   \<and> create_logger (PyStr ''Console'') [ConsoleLogger]
       = (Inl (ValueError ''Invalid logger type argument''), [ConsoleLogger])
   \<and> created [PyStr ''console'', PyInt 3, file_like, PyStr ''console''] [ConsoleLogger]
       = [1, 2, 3]
   \<and> distinct (created [PyStr ''console'', PyInt 3, file_like, PyStr ''console''] [ConsoleLogger])"
proof -
  have h1: "py_eq file_like ''console'' = (Inr False, [])"
    by (simp add: file_like_def)
  have h2: "py_eq file_like ''file'' = (Inr True, [])"
    by (simp add: file_like_def)
  have c: "created [PyStr ''console'', PyInt 3, file_like, PyStr ''console''] [ConsoleLogger]
             = [1, 2, 3]"
    by (simp add: create_logger_def file_like_def)
  from create_logger_by_comparison
         [where s = "''Console''" and h = "[ConsoleLogger]" and t = file_like
            and ?a1.0 = "[]" and ?a2.0 = "[]"
            and ts = "[PyStr ''console'', PyInt 3, file_like, PyStr ''console'']"]
       h1 h2 c
  show ?thesis by simp
qed

text \<open>
  "\<open>ValueError\<close> for every argument other than the three strings" does not hold of the
  code: \<open>anything\<close> is none of the three strings, and the call returns a new
  \<open>ConsoleLogger\<close>.
\<close>

theorem create_logger_other_argument_counterexample:
  "anything \<noteq> PyStr ''console'' \<and> anything \<noteq> PyStr ''file'' \<and> anything \<noteq> PyStr ''database''
   \<and> create_logger anything [] = (Inr 0, [ConsoleLogger])"
  by (simp add: anything_def create_logger_def)

end
